theory Spec2Isabelle
  imports Complex_Main "HOL-Library.AList"
begin

section \<open>Benthic carbon-flux notebook: data model\<close>

text \<open>
  The notebook \<^verbatim>\<open>benthic_ERSEM_L4_BECS.ipynb\<close> runs two copies of one pipeline
  (detailed and simplified benthic model). Its cells are embedded here as functions.

  Numbers. The tables hold floating-point values. They are modelled as \<^typ>\<open>real\<close>:
  comparisons, thresholds and the clamp are the ones of the source, while rounding, NaN
  and infinities are outside the model. The statements below that divide by the maximum
  flux therefore assume it is positive. Arithmetic is exact in these definitions. The
  normalisation \<^verbatim>\<open>value * (x / maxwidth)\<close> is given a second time with each operation
  rounded to the float type of the table, for the one property that depends on the rounding.

  Exceptions are values of type \<open>error\<close>; a cell that can raise returns \<open>error + 'a\<close>.
\<close>

datatype error =
    KeyError string
  | AttributeError string
  | ValueError

text \<open>A pandas Series indexed by column label, in declaration order (\<^verbatim>\<open>dfm\<close>, \<^verbatim>\<open>maxw\<close>).\<close>

type_synonym series = "(string \<times> real) list"

text \<open>\<^verbatim>\<open>dfm[fl]\<close>: a missing label raises \<^verbatim>\<open>KeyError\<close>.\<close>

definition series_get :: "series \<Rightarrow> string \<Rightarrow> error + real" where
  "series_get s k = (case map_of s k of None \<Rightarrow> Inl (KeyError k) | Some v \<Rightarrow> Inr v)"

text \<open>\<^verbatim>\<open>maxw.values\<close>: the values of a Series as a one-dimensional array.\<close>

definition series_values :: "series \<Rightarrow> real list" where
  "series_values s = map snd s"

section \<open>Graph renderer: the edge styling loop\<close>

text \<open>
  In the loop body \<^verbatim>\<open>nvalue = value * (x / maxwidth)\<close> is an array, because
  \<^verbatim>\<open>maxwidth = maxw.values\<close> is one. Python's \<^verbatim>\<open>min\<close> and \<^verbatim>\<open>max\<close>
  then compare an array with a float and take the truth value of the comparison, so a value
  in the loop is either a Python float or an array.
\<close>

datatype pyval = PyFloat real | NDArray "real list"

text \<open>
  \<^verbatim>\<open>bool(a)\<close> for an array of booleans: defined for exactly one element, otherwise
  \<^verbatim>\<open>ValueError\<close> (the truth value of an array with more than one element is ambiguous;
  NumPy 2.2 and later raise for the empty array as well).
\<close>

definition truth_value :: "bool list \<Rightarrow> error + bool" where
  "truth_value bs = (case bs of [b] \<Rightarrow> Inr b | _ \<Rightarrow> Inl ValueError)"

fun py_lt :: "pyval \<Rightarrow> real \<Rightarrow> error + bool" where
  "py_lt (PyFloat a) c = Inr (a < c)"
| "py_lt (NDArray a) c = truth_value (map (\<lambda>x. x < c) a)"

fun py_gt :: "pyval \<Rightarrow> real \<Rightarrow> error + bool" where
  "py_gt (PyFloat a) c = Inr (a > c)"
| "py_gt (NDArray a) c = truth_value (map (\<lambda>x. x > c) a)"

text \<open>
  The builtins \<^verbatim>\<open>min(c, b)\<close> and \<^verbatim>\<open>max(c, b)\<close> with a float first argument:
  the second argument replaces the first when it is strictly smaller (larger).
\<close>

definition py_min :: "real \<Rightarrow> pyval \<Rightarrow> error + pyval" where
  "py_min c b = (case py_lt b c of Inl e \<Rightarrow> Inl e
                 | Inr t \<Rightarrow> Inr (if t then b else PyFloat c))"

definition py_max :: "real \<Rightarrow> pyval \<Rightarrow> error + pyval" where
  "py_max c b = (case py_gt b c of Inl e \<Rightarrow> Inl e
                 | Inr t \<Rightarrow> Inr (if t then b else PyFloat c))"

text \<open>
  \<^verbatim>\<open>if hasattr(nnvalue, 'ndim') and nnvalue.ndim > 0: nnvalue = nnvalue.item()\<close>
  followed by \<^verbatim>\<open>float(nnvalue)\<close>.
\<close>

fun to_scalar :: "pyval \<Rightarrow> error + real" where
  "to_scalar (PyFloat x) = Inr x"
| "to_scalar (NDArray [x]) = Inr x"
| "to_scalar (NDArray _) = Inl ValueError"

text \<open>The attributes passed to \<^verbatim>\<open>mw.edge\<close>; the pen width is kept as a number.\<close>

record edge =
  tail_name :: string
  head_name :: string
  penwidth :: real
  color :: string
  arrowsize :: string
  arrowhead :: string

text \<open>\<^verbatim>\<open>flo=fl[0:2];fli=fl[2:]\<close>. Slicing a string never raises.\<close>

definition split_code :: "string \<Rightarrow> error + string \<times> string" where
  "split_code fl = Inr (take 2 fl, drop 2 fl)"

text \<open>
  The three branches on \<^verbatim>\<open>dfm[fl]\<close>: colour and \<^verbatim>\<open>nnvalue\<close>.
  \<^verbatim>\<open>x = 10\<close> is the constant of the cell.
\<close>

definition classify :: "real \<Rightarrow> real list \<Rightarrow> error + string \<times> pyval" where
  "classify v maxwidth =
     (let nvalue = NDArray (map (\<lambda>m. v * (10 / m)) maxwidth) in
      if v < 1 / 100000 then Inr (''#0066CC'', PyFloat 0.5)
      else if v < 0.2 then Inr (''#CC0000'', PyFloat 0.5)
      else (case py_min 10 nvalue of Inl e \<Rightarrow> Inl e
            | Inr w \<Rightarrow> (case py_max 0.5 w of Inl e \<Rightarrow> Inl e
                        | Inr nn \<Rightarrow> Inr (''#000000B0'', nn))))"

text \<open>One iteration of \<^verbatim>\<open>for fl in fluxes\<close>: the edge handed to the graph.\<close>

definition style_edge :: "series \<Rightarrow> real list \<Rightarrow> string \<Rightarrow> error + edge" where
  "style_edge dfm maxwidth fl =
     (case split_code fl of Inl e \<Rightarrow> Inl e
      | Inr (flo, fli) \<Rightarrow>
     (case series_get dfm fl of Inl e \<Rightarrow> Inl e
      | Inr v \<Rightarrow>
     (case classify v maxwidth of Inl e \<Rightarrow> Inl e
      | Inr (col, nnvalue) \<Rightarrow>
     (case to_scalar nnvalue of Inl e \<Rightarrow> Inl e
      | Inr w \<Rightarrow>
        Inr \<lparr>tail_name = flo, head_name = fli, penwidth = w, color = col,
             arrowsize = ''1.0'', arrowhead = ''normal''\<rparr>))))"

text \<open>The loop: edges are added in list order; the first exception ends it.\<close>

fun render_edges :: "series \<Rightarrow> real list \<Rightarrow> string list \<Rightarrow> edge list \<Rightarrow> error + edge list" where
  "render_edges dfm maxwidth [] es = Inr es"
| "render_edges dfm maxwidth (fl # fls) es =
     (case style_edge dfm maxwidth fl of Inl e \<Rightarrow> Inl e
      | Inr ed \<Rightarrow> render_edges dfm maxwidth fls (es @ [ed]))"

section \<open>Temporal reducer: maximum mean flux\<close>

text \<open>
  \<^verbatim>\<open>maxw = dfm[dfm==dfm.max()]\<close> keeps every column whose mean equals the maximum,
  in declaration order. A Series without columns has no maximum and selects nothing.
\<close>

definition series_max :: "series \<Rightarrow> real option" where
  "series_max s = (case series_values s of [] \<Rightarrow> None | v # vs \<Rightarrow> Some (fold max vs v))"

definition max_flux :: "series \<Rightarrow> series" where
  "max_flux dfm = (case series_max dfm of None \<Rightarrow> []
                   | Some m \<Rightarrow> filter (\<lambda>kv. snd kv = m) dfm)"

section \<open>Tables and the year filter\<close>

text \<open>
  A row label of the tables is a timestamp; the notebook reads only its calendar year
  (\<^verbatim>\<open>df.index.year\<close>).
\<close>

record timestamp =
  year :: int
  month :: nat
  day :: nat
  nanosecond_of_day :: nat

text \<open>
  A pandas DataFrame: the row index and the columns in insertion order, each column
  holding one value per row.
\<close>

record dataframe =
  index :: "timestamp list"
  columns :: "(string \<times> real list) list"

text \<open>Selecting with a boolean mask keeps the positions where the mask is \<open>True\<close>.\<close>

definition bool_index :: "bool list \<Rightarrow> 'a list \<Rightarrow> 'a list" where
  "bool_index keep xs = map snd (filter fst (zip keep xs))"

text \<open>\<^verbatim>\<open>df[df.index.year==y]\<close>; the notebook's \<open>y\<close> is 2016.\<close>

definition year_filter :: "int \<Rightarrow> dataframe \<Rightarrow> dataframe" where
  "year_filter y df =
     (let keep = map (\<lambda>t. year t = y) (index df) in
      \<lparr>index = bool_index keep (index df),
       columns = map (\<lambda>kc. (fst kc, bool_index keep (snd kc))) (columns df)\<rparr>)"

text \<open>
  The first two statements of the reducer cell filter the flux table and the stock table.
  Neither statement can raise.
\<close>

definition filter_tables :: "int \<Rightarrow> dataframe \<Rightarrow> dataframe \<Rightarrow> error + dataframe \<times> dataframe" where
  "filter_tables y df dv = Inr (year_filter y df, year_filter y dv)"

section \<open>Flux table builder (detailed model)\<close>

text \<open>
  The opened dataset: the time axis and the named variables, each a series over that axis
  once \<^verbatim>\<open>.values.squeeze()\<close> has removed the singleton dimensions.
\<close>

record dataset =
  time_values :: "timestamp list"
  data_vars :: "string \<Rightarrow> real list option"

definition bind_e :: "error + 'a \<Rightarrow> ('a \<Rightarrow> error + 'b) \<Rightarrow> error + 'b" where
  "bind_e m f = (case m of Inl e \<Rightarrow> Inl e | Inr x \<Rightarrow> f x)"

text \<open>\<^verbatim>\<open>xd.NAME.values.squeeze()\<close>: an absent variable raises \<^verbatim>\<open>AttributeError\<close>.\<close>

definition xvar :: "dataset \<Rightarrow> string \<Rightarrow> error + real list" where
  "xvar xd v = (case data_vars xd v of None \<Rightarrow> Inl (AttributeError v) | Some a \<Rightarrow> Inr a)"

text \<open>\<^verbatim>\<open>df.NAME\<close>: a column read as an attribute.\<close>

definition column :: "dataframe \<Rightarrow> string \<Rightarrow> error + real list" where
  "column df k = (case map_of (columns df) k of None \<Rightarrow> Inl (AttributeError k) | Some c \<Rightarrow> Inr c)"

text \<open>\<^verbatim>\<open>pd.DataFrame(index=xd.Y2_fYG3c.time.values)\<close>\<close>

definition new_frame :: "dataset \<Rightarrow> error + dataframe" where
  "new_frame xd = bind_e (xvar xd ''Y2_fYG3c'')
                    (\<lambda>_. Inr \<lparr>index = time_values xd, columns = []\<rparr>)"

text \<open>
  \<^verbatim>\<open>df[k] = a\<close>: the values must match the length of the index; an existing column is
  replaced in place, a new one is appended.
\<close>

definition set_column :: "dataframe \<Rightarrow> string \<Rightarrow> real list \<Rightarrow> error + dataframe" where
  "set_column df k a =
     (if length a = length (index df)
      then Inr (df\<lparr>columns := AList.update k a (columns df)\<rparr>)
      else Inl ValueError)"

text \<open>Element-wise sum of two series; operands of different length do not combine.\<close>

definition ew_add :: "real list \<Rightarrow> real list \<Rightarrow> error + real list" where
  "ew_add a b = (if length a = length b then Inr (map2 (+) a b) else Inl ValueError)"

text \<open>\<^verbatim>\<open>acc + df.c1 + df.c2 + ...\<close>, read and added from left to right.\<close>

fun col_sum :: "dataframe \<Rightarrow> real list \<Rightarrow> string list \<Rightarrow> error + real list" where
  "col_sum df acc [] = Inr acc"
| "col_sum df acc (c # cs) =
     bind_e (column df c) (\<lambda>x. bind_e (ew_add acc x) (\<lambda>s. col_sum df s cs))"

text \<open>A column copied from the dataset.\<close>

definition raw :: "string \<Rightarrow> dataset \<Rightarrow> dataframe \<Rightarrow> error + real list" where
  "raw v xd df = xvar xd v"

text \<open>
  The right-hand side of a return flux to detritus,
  \<^verbatim>\<open>xd.R.values.squeeze()+df.Q*k1+k2*(df.P0+df.P1+...)\<close>, in Python's order of evaluation.
\<close>

definition return_flux ::
  "string \<Rightarrow> string \<Rightarrow> real \<Rightarrow> real \<Rightarrow> string \<Rightarrow> string list \<Rightarrow>
   dataset \<Rightarrow> dataframe \<Rightarrow> error + real list" where
  "return_flux r q k1 k2 p0 ps xd df =
     bind_e (xvar xd r) (\<lambda>a.
     bind_e (column df q) (\<lambda>qs.
     bind_e (ew_add a (map (\<lambda>x. x * k1) qs)) (\<lambda>s.
     bind_e (column df p0) (\<lambda>p.
     bind_e (col_sum df p ps) (\<lambda>w.
     ew_add s (map (\<lambda>x. k2 * x) w))))))"

text \<open>An assignment \<^verbatim>\<open>df[k] = rhs\<close> and a sequence of them.\<close>

type_synonym assignment = "string \<times> (dataset \<Rightarrow> dataframe \<Rightarrow> error + real list)"

fun run_assignments :: "assignment list \<Rightarrow> dataset \<Rightarrow> dataframe \<Rightarrow> error + dataframe" where
  "run_assignments [] xd df = Inr df"
| "run_assignments (s # ss) xd df =
     bind_e (snd s xd df) (\<lambda>a.
     bind_e (set_column df (fst s) a) (run_assignments ss xd))"

text \<open>The cell of the deposition fluxes.\<close>

definition deposition_fluxes :: "assignment list" where
  "deposition_fluxes =
    [(''R4Q6'', raw ''R4_dep1c''), (''R4Q7'', raw ''R4_dep2c''),
     (''R6Q6'', raw ''R6_dep1c''), (''R6Q7'', raw ''R6_dep2c''),
     (''R8Q6'', raw ''R8_dep1c''), (''R8Q7'', raw ''R8_dep2c''),
     (''P1Q6'', raw ''P1_dep1c''), (''P1Q1'', raw ''P1_dep2c''), (''P1Q7'', raw ''P1_dep3c''),
     (''P2Q6'', raw ''P2_dep1c''), (''P2Q1'', raw ''P2_dep2c''), (''P2Q7'', raw ''P2_dep3c''),
     (''P3Q6'', raw ''P3_dep1c''), (''P3Q1'', raw ''P3_dep2c''), (''P3Q7'', raw ''P3_dep3c''),
     (''P4Q6'', raw ''P4_dep1c''), (''P4Q1'', raw ''P4_dep2c''), (''P4Q7'', raw ''P4_dep3c'')]"

text \<open>
  The cell of the resuspension, bacterial and faunal fluxes, split at the three return
  fluxes that read columns assigned before them.
\<close>

definition bacterial_fluxes :: "assignment list" where
  "bacterial_fluxes =
    [(''Q6R6'', raw ''Q6_resuspension_flux_c''),
     (''Q1H1'', raw ''H1_fc1''), (''Q6H1'', raw ''H1_fc2''), (''Q7H1'', raw ''H1_fc3''),
     (''H1G3'', raw ''H1_fHG3c''), (''H1Q1'', raw ''H1_fHQ1c''), (''H1Q6'', raw ''H1_fHQPc''),
     (''Q6H2'', raw ''H2_fc1''), (''Q7H2'', raw ''H2_fc2''),
     (''H2G3'', raw ''H2_fHG3c''), (''H2Q6'', raw ''H2_fHQPc'')]"

definition deposit_feeder_fluxes :: "assignment list" where
  "deposit_feeder_fluxes =
    [(''H1Y2'', raw ''Y2_fprey1c''), (''H2Y2'', raw ''Y2_fprey2c''),
     (''Q6Y2'', raw ''Y2_fprey3c''), (''Y4Y2'', raw ''Y2_fprey4c''),
     (''Y2G3'', raw ''Y2_fYG3c''),
     (''Y2Q6'', return_flux ''Y2_fYQPc'' ''Q6Y2'' 0.8 0.35 ''H1Y2'' [''H2Y2'', ''Y4Y2''])]"

definition suspension_feeder_fluxes :: "assignment list" where
  "suspension_feeder_fluxes =
    [(''P1Y3'', raw ''Y3_fprey1c''), (''P2Y3'', raw ''Y3_fprey2c''),
     (''P3Y3'', raw ''Y3_fprey3c''), (''R6Y3'', raw ''Y3_fprey4c''),
     (''H1Y3'', raw ''Y3_fprey5c''), (''Q6Y3'', raw ''Y3_fprey6c''),
     (''Y3G3'', raw ''Y3_fYG3c''),
     (''Y3Q6'', return_flux ''Y3_fYQPc'' ''Q6Y3'' 0.85 0.35 ''P1Y3''
                  [''P2Y3'', ''P3Y3'', ''R6Y3'', ''H1Y3''])]"

definition meiofauna_fluxes :: "assignment list" where
  "meiofauna_fluxes =
    [(''H1Y4'', raw ''Y4_fprey1c''), (''H2Y4'', raw ''Y4_fprey2c''),
     (''Y4Y4'', raw ''Y4_fprey3c''), (''Q6Y4'', raw ''Y4_fprey4c''),
     (''Y4G3'', raw ''Y4_fYG3c''),
     (''Y4Q6'', return_flux ''Y4_fYQPc'' ''Q6Y4'' 0.4 0.25 ''Y4Y4'' [''H1Y4'', ''H2Y4''])]"

text \<open>The flux table \<^verbatim>\<open>df\<close> of the detailed model, before the year filter.\<close>

definition flux_table :: "dataset \<Rightarrow> error + dataframe" where
  "flux_table xd =
     bind_e (new_frame xd)
       (run_assignments
          (deposition_fluxes @ bacterial_fluxes @ deposit_feeder_fluxes @
           suspension_feeder_fluxes @ meiofauna_fluxes) xd)"

section \<open>The normalisation in rounded arithmetic\<close>

text \<open>
  NumPy evaluates \<^verbatim>\<open>value * (x / maxwidth)\<close> in the float type of \<^verbatim>\<open>dfm\<close> (the run
  recorded in the notebook prints \<^verbatim>\<open>dtype: float32\<close>): the quotient is rounded, and then
  the product. A float type with \<open>p\<close> significant bits and exponents from \<open>emin\<close> to
  \<open>emax\<close> (IEEE 754: 24, -126, 127 for float32 and 53, -1022, 1023 for float64) returns
  the multiple of the unit in the last place that is nearest to the exact result, the even
  one of two equally near. Below \<open>2 ^ emin\<close> the unit is that of the smallest exponent.
  Overflow to infinity and NaN are not modelled.
\<close>

text \<open>The power of two with an integer exponent.\<close>

definition pow2 :: "int \<Rightarrow> real" where
  "pow2 e = (if 0 \<le> e then 2 ^ nat e else 1 / 2 ^ nat (- e))"

text \<open>The nearest integer, the even one when two are equally near.\<close>

definition round_half_even :: "real \<Rightarrow> int" where
  "round_half_even q =
     (let f = \<lfloor>q\<rfloor> in
      if q - of_int f < 1 / 2 then f
      else if 1 / 2 < q - of_int f then f + 1
      else if even f then f else f + 1)"

text \<open>
  The exponent of \<open>x \<ge> 0\<close>: starting from the largest exponent, the first \<open>e\<close> with
  \<open>2 ^ e \<le> x\<close>, and the smallest exponent when there is none above it.
\<close>

function float_exponent :: "int \<Rightarrow> int \<Rightarrow> real \<Rightarrow> int" where
  "float_exponent emin e x =
     (if e \<le> emin \<or> pow2 e \<le> x then e else float_exponent emin (e - 1) x)"
  by pat_completeness auto
termination
  by (relation "measure (\<lambda>(emin, e, x). nat (e - emin))") auto

declare float_exponent.simps [simp del]

text \<open>
  Rounding to the float type: the unit in the last place of \<open>x\<close> is
  \<open>2 ^ (e - p + 1)\<close> for the exponent \<open>e\<close> of \<open>\<bar>x\<bar>\<close>.
\<close>

definition round_float :: "nat \<Rightarrow> int \<Rightarrow> int \<Rightarrow> real \<Rightarrow> real" where
  "round_float p emin emax x =
     (let e = float_exponent emin emax \<bar>x\<bar>; u = pow2 (e - int p + 1)
      in of_int (round_half_even (x / u)) * u)"

definition round_binary32 :: "real \<Rightarrow> real" where
  "round_binary32 = round_float 24 (- 126) 127"

definition round_binary64 :: "real \<Rightarrow> real" where
  "round_binary64 = round_float 53 (- 1022) 1023"

text \<open>
  The loop body with the rounding \<open>rnd\<close> of the float type as a parameter:
  \<^verbatim>\<open>nvalue = value * (x / maxwidth)\<close>, \<^verbatim>\<open>max(0.5, min(10., nvalue))\<close>, the three
  branches and the edge. With \<open>rnd = (\<lambda>x. x)\<close> these are \<open>classify\<close> and \<open>style_edge\<close>.
\<close>

definition scaled_value :: "(real \<Rightarrow> real) \<Rightarrow> real \<Rightarrow> real list \<Rightarrow> pyval" where
  "scaled_value rnd v maxwidth = NDArray (map (\<lambda>m. rnd (v * rnd (10 / m))) maxwidth)"

definition clamp_width :: "pyval \<Rightarrow> error + pyval" where
  "clamp_width nvalue = (case py_min 10 nvalue of Inl e \<Rightarrow> Inl e | Inr w \<Rightarrow> py_max 0.5 w)"

definition classify_fl :: "(real \<Rightarrow> real) \<Rightarrow> real \<Rightarrow> real list \<Rightarrow> error + string \<times> pyval" where
  "classify_fl rnd v maxwidth =
     (let nvalue = scaled_value rnd v maxwidth in
      if v < 1 / 100000 then Inr (''#0066CC'', PyFloat 0.5)
      else if v < 0.2 then Inr (''#CC0000'', PyFloat 0.5)
      else (case clamp_width nvalue of Inl e \<Rightarrow> Inl e
            | Inr nn \<Rightarrow> Inr (''#000000B0'', nn)))"

definition style_edge_fl ::
  "(real \<Rightarrow> real) \<Rightarrow> series \<Rightarrow> real list \<Rightarrow> string \<Rightarrow> error + edge" where
  "style_edge_fl rnd dfm maxwidth fl =
     (case split_code fl of Inl e \<Rightarrow> Inl e
      | Inr (flo, fli) \<Rightarrow>
     (case series_get dfm fl of Inl e \<Rightarrow> Inl e
      | Inr v \<Rightarrow>
     (case classify_fl rnd v maxwidth of Inl e \<Rightarrow> Inl e
      | Inr (col, nnvalue) \<Rightarrow>
     (case to_scalar nnvalue of Inl e \<Rightarrow> Inl e
      | Inr w \<Rightarrow>
        Inr \<lparr>tail_name = flo, head_name = fli, penwidth = w, color = col,
             arrowsize = ''1.0'', arrowhead = ''normal''\<rparr>))))"

text \<open>
  The pen width that the third branch computes when the mean flux is the maximum \<open>M\<close>
  itself and \<^verbatim>\<open>maxwidth\<close> holds that one value.
\<close>

definition round_trip_width :: "(real \<Rightarrow> real) \<Rightarrow> real \<Rightarrow> error + real" where
  "round_trip_width rnd M =
     (case clamp_width (scaled_value rnd M [M]) of Inl e \<Rightarrow> Inl e | Inr nn \<Rightarrow> to_scalar nn)"

section \<open>Properties of the edge styling\<close>

text \<open>With a single maximum the array \<^verbatim>\<open>maxwidth\<close> has one element \<open>M\<close>.\<close>

lemma classify_single:
  "classify v [M] =
     (if v < 1 / 100000 then Inr (''#0066CC'', PyFloat 0.5)
      else if v < 0.2 then Inr (''#CC0000'', PyFloat 0.5)
      else Inr (''#000000B0'',
                if v * (10 / M) < 10
                then (if v * (10 / M) > 0.5 then NDArray [v * (10 / M)] else PyFloat 0.5)
                else PyFloat 10))"
  by (simp add: classify_def py_min_def py_max_def truth_value_def Let_def)

lemma style_edge_single:
  assumes "map_of dfm fl = Some v"
  shows "style_edge dfm [M] fl =
     Inr \<lparr>tail_name = take 2 fl, head_name = drop 2 fl,
          penwidth = (if v < 1 / 100000 then 0.5 else if v < 0.2 then 0.5
                      else max 0.5 (min 10 (v * (10 / M)))),
          color = (if v < 1 / 100000 then ''#0066CC'' else if v < 0.2 then ''#CC0000''
                   else ''#000000B0''),
          arrowsize = ''1.0'', arrowhead = ''normal''\<rparr>"
  using assms
  by (simp add: style_edge_def split_code_def series_get_def classify_single)

text \<open>
  C1. With a positive maximum mean flux \<open>M\<close>, an edge whose mean flux is \<open>v\<close> is
  styled by the first matching rule: \<open>v < 1e-5\<close> gives the blue colour and pen width 0.5;
  otherwise \<open>v < 0.2\<close> gives the red colour and pen width 0.5; otherwise the edge gets the
  semi-transparent black and the pen width \<open>v * (10 / M)\<close> clamped to \<open>[0.5, 10]\<close>.
\<close>

theorem edge_classifier_tiers:
  assumes "0 < M" and "map_of dfm fl = Some v"
  shows "style_edge dfm [M] fl =
     Inr \<lparr>tail_name = take 2 fl, head_name = drop 2 fl,
          penwidth = (if v < 1 / 100000 then 0.5 else if v < 0.2 then 0.5
                      else max 0.5 (min 10 (v * (10 / M)))),
          color = (if v < 1 / 100000 then ''#0066CC'' else if v < 0.2 then ''#CC0000''
                   else ''#000000B0''),
          arrowsize = ''1.0'', arrowhead = ''normal''\<rparr>"
  using assms(2) by (rule style_edge_single)

theorem edge_classifier_tiers_witness:
  "style_edge [(''A1B1'', 0), (''C1D1'', 0.1), (''E1F1'', 5), (''G1H1'', 1)] [5] ''A1B1'' =
     Inr \<lparr>tail_name = ''A1'', head_name = ''B1'', penwidth = 0.5, color = ''#0066CC'',
          arrowsize = ''1.0'', arrowhead = ''normal''\<rparr> \<and>
   style_edge [(''A1B1'', 0), (''C1D1'', 0.1), (''E1F1'', 5), (''G1H1'', 1)] [5] ''C1D1'' =
     Inr \<lparr>tail_name = ''C1'', head_name = ''D1'', penwidth = 0.5, color = ''#CC0000'',
          arrowsize = ''1.0'', arrowhead = ''normal''\<rparr> \<and>
   style_edge [(''A1B1'', 0), (''C1D1'', 0.1), (''E1F1'', 5), (''G1H1'', 1)] [5] ''E1F1'' =
     Inr \<lparr>tail_name = ''E1'', head_name = ''F1'', penwidth = 10, color = ''#000000B0'',
          arrowsize = ''1.0'', arrowhead = ''normal''\<rparr> \<and>
   style_edge [(''A1B1'', 0), (''C1D1'', 0.1), (''E1F1'', 5), (''G1H1'', 1)] [5] ''G1H1'' =
     Inr \<lparr>tail_name = ''G1'', head_name = ''H1'', penwidth = 2, color = ''#000000B0'',
          arrowsize = ''1.0'', arrowhead = ''normal''\<rparr>"
  using edge_classifier_tiers [of 5 "[(''A1B1'', 0), (''C1D1'', 0.1), (''E1F1'', 5), (''G1H1'', 1)]" "''A1B1''" 0]
        edge_classifier_tiers [of 5 "[(''A1B1'', 0), (''C1D1'', 0.1), (''E1F1'', 5), (''G1H1'', 1)]" "''C1D1''" "0.1"]
        edge_classifier_tiers [of 5 "[(''A1B1'', 0), (''C1D1'', 0.1), (''E1F1'', 5), (''G1H1'', 1)]" "''E1F1''" 5]
        edge_classifier_tiers [of 5 "[(''A1B1'', 0), (''C1D1'', 0.1), (''E1F1'', 5), (''G1H1'', 1)]" "''G1H1''" 1]
  by simp

text \<open>
  C9. With a positive maximum mean flux, the pen width of a rendered edge lies in
  \<open>[0.5, 10]\<close>, whichever branch its mean flux takes.
\<close>

theorem pen_width_in_range:
  assumes "0 < M" and "map_of dfm fl = Some v"
  shows "\<exists>e. style_edge dfm [M] fl = Inr e \<and> 0.5 \<le> penwidth e \<and> penwidth e \<le> 10"
proof -
  let ?w = "if v < 1 / 100000 then 0.5 else if v < 0.2 then 0.5
            else max 0.5 (min 10 (v * (10 / M)))"
  have r: "0.5 \<le> ?w \<and> ?w \<le> 10"
    by (auto simp: max_def min_def)
  show ?thesis
    unfolding style_edge_single [OF assms(2)] using r by simp
qed

theorem pen_width_in_range_witness:
  "\<exists>e. style_edge [(''H1Y2'', 3)] [4] ''H1Y2'' = Inr e \<and> 0.5 \<le> penwidth e \<and> penwidth e \<le> 10"
  using pen_width_in_range [of 4 "[(''H1Y2'', 3)]" "''H1Y2''" 3] by simp

text \<open>
  C7. For a fixed positive maximum mean flux and two mean fluxes \<open>0.2 \<le> v1 \<le> v2\<close>, the
  pen width computed for \<open>v1\<close> is at most the pen width computed for \<open>v2\<close>.
\<close>

theorem significant_width_monotone:
  assumes "0 < M" and "0.2 \<le> v1" and "v1 \<le> v2"
    and "map_of dfm f1 = Some v1" and "map_of dfm f2 = Some v2"
  shows "\<exists>e1 e2. style_edge dfm [M] f1 = Inr e1 \<and> style_edge dfm [M] f2 = Inr e2 \<and>
           penwidth e1 = max 0.5 (min 10 (v1 * (10 / M))) \<and>
           penwidth e2 = max 0.5 (min 10 (v2 * (10 / M))) \<and>
           penwidth e1 \<le> penwidth e2"
proof -
  have "v1 * (10 / M) \<le> v2 * (10 / M)"
    using assms(1,3) by (intro mult_right_mono) simp_all
  then have "max 0.5 (min 10 (v1 * (10 / M))) \<le> max 0.5 (min 10 (v2 * (10 / M)))"
    by (simp add: max.coboundedI2 min.coboundedI2)
  moreover have "\<not> v1 < 1 / 100000" "\<not> v1 < 0.2" "\<not> v2 < 1 / 100000" "\<not> v2 < 0.2"
    using assms(2,3) by simp_all
  ultimately show ?thesis
    using assms(4,5) by (simp add: style_edge_single del: times_divide_eq_right)
qed

theorem significant_width_monotone_witness:
  "\<exists>e1 e2. style_edge [(''H1Y2'', 1), (''Q6Y4'', 3)] [4] ''H1Y2'' = Inr e1 \<and>
           style_edge [(''H1Y2'', 1), (''Q6Y4'', 3)] [4] ''Q6Y4'' = Inr e2 \<and>
           penwidth e1 = 2.5 \<and> penwidth e2 = 7.5 \<and> penwidth e1 \<le> penwidth e2"
  using significant_width_monotone [of 4 1 3 "[(''H1Y2'', 1), (''Q6Y4'', 3)]" "''H1Y2''" "''Q6Y4''"]
  by simp

section \<open>Properties of the edge code split\<close>

text \<open>
  C10. The split of an edge code of any length succeeds: the source is the first
  \<open>min 2 (length s)\<close> characters, the destination is all the rest, and the two parts
  concatenate to the code. A five-character code yields a three-character destination.
\<close>

theorem split_code_total:
  "\<exists>flo fli. split_code s = Inr (flo, fli) \<and>
      flo = take (min 2 (length s)) s \<and> fli = drop (length flo) s \<and> flo @ fli = s \<and>
      length flo = min 2 (length s) \<and> length fli = length s - 2 \<and>
      split_code ''H1Y2X'' = Inr (''H1'', ''Y2X'')"
  by (simp add: split_code_def min_def)

text \<open>
  C2 as stated fails: a code of three or five characters is split without any error, and an
  edge with a five-character code is rendered.
\<close>

theorem malformed_code_counterexample:
  "split_code ''H1Y2X'' = Inr (''H1'', ''Y2X'') \<and>
   split_code ''H1Y'' = Inr (''H1'', ''Y'') \<and>
   style_edge [(''H1Y2X'', 1)] [1] ''H1Y2X'' =
     Inr \<lparr>tail_name = ''H1'', head_name = ''Y2X'', penwidth = 10, color = ''#000000B0'',
          arrowsize = ''1.0'', arrowhead = ''normal''\<rparr>"
  by (simp add: split_code_def style_edge_def series_get_def classify_def py_min_def
      py_max_def truth_value_def)

text \<open>
  C2, amended. An edge code of exactly four characters is split into a two-character source
  and a two-character destination (\<open>H1Y2\<close> into \<open>H1\<close> and \<open>Y2\<close>). A code of any other length
  is not rejected: the split returns its first two characters and the remainder.
\<close>

theorem split_code_four:
  "(length fl = 4 \<longrightarrow>
      (\<exists>flo fli. split_code fl = Inr (flo, fli) \<and> flo = take 2 fl \<and> fli = drop 2 fl \<and>
                 length flo = 2 \<and> length fli = 2 \<and> flo @ fli = fl)) \<and>
   (length fl \<noteq> 4 \<longrightarrow>
      (\<exists>flo fli. split_code fl = Inr (flo, fli) \<and> flo = take 2 fl \<and> fli = drop 2 fl))"
  by (simp add: split_code_def)

theorem split_code_four_witness:
  "split_code ''H1Y2'' = Inr (''H1'', ''Y2'') \<and> split_code ''H1Y'' = Inr (''H1'', ''Y'')"
  using split_code_four [of "''H1Y2''"] split_code_four [of "''H1Y''"] by simp

section \<open>Properties of the maximum mean flux\<close>

text \<open>
  The selection \<^verbatim>\<open>dfm[dfm==dfm.max()]\<close> returns every column that attains the maximum, in
  declaration order.
\<close>

lemma series_max_Max:
  assumes "dfm \<noteq> []"
  shows "series_max dfm = Some (Max (snd ` set dfm))"
proof -
  obtain kv rest where dfm: "dfm = kv # rest"
    using assms by (cases dfm) auto
  have "fold max (map snd rest) (snd kv) = Max (set (snd kv # map snd rest))"
    by (rule Max.set_eq_fold [symmetric])
  then show ?thesis
    by (simp add: series_max_def series_values_def dfm)
qed

lemma max_flux_ties:
  assumes "dfm \<noteq> []"
  shows "max_flux dfm = filter (\<lambda>kv. snd kv = Max (snd ` set dfm)) dfm"
  by (simp add: max_flux_def series_max_Max [OF assms])

text \<open>
  When two or more columns attain the maximum, \<^verbatim>\<open>maxwidth\<close> has as many elements, and
  the truth value taken by \<^verbatim>\<open>min\<close> is undefined for every edge of the third branch.
\<close>

lemma classify_tied:
  assumes "2 \<le> length maxwidth" and "0.2 \<le> v"
  shows "classify v maxwidth = Inl ValueError"
proof -
  obtain a b ms where "maxwidth = a # b # ms"
    using assms(1) by (cases maxwidth; cases "tl maxwidth") auto
  then show ?thesis
    using assms(2) by (simp add: classify_def py_min_def truth_value_def)
qed

lemma style_edge_tied:
  assumes "2 \<le> length (max_flux dfm)" and "map_of dfm fl = Some v" and "0.2 \<le> v"
  shows "style_edge dfm (series_values (max_flux dfm)) fl = Inl ValueError"
proof -
  have "2 \<le> length (series_values (max_flux dfm))"
    using assms(1) by (simp add: series_values_def)
  then have "classify v (series_values (max_flux dfm)) = Inl ValueError"
    using assms(3) by (rule classify_tied)
  then show ?thesis
    using assms(2) by (simp add: style_edge_def split_code_def series_get_def)
qed

text \<open>
  C5. Two columns tied for the maximum are both reported by \<^verbatim>\<open>maxw\<close>. C5 expects the
  normalisation to use the value of the first tied column and to behave as without a tie.
  The loop receives both values instead, and raises on the first edge of the third branch;
  with the single value 5 the same edges are rendered.
\<close>

theorem tied_maximum_evaluation:
  "max_flux [(''A1B1'', 5), (''C1D1'', 5), (''E1F1'', 0.1)] = [(''A1B1'', 5), (''C1D1'', 5)] \<and>
   series_values (max_flux [(''A1B1'', 5), (''C1D1'', 5), (''E1F1'', 0.1)]) = [5, 5] \<and>
   render_edges [(''A1B1'', 5), (''C1D1'', 5), (''E1F1'', 0.1)]
     (series_values (max_flux [(''A1B1'', 5), (''C1D1'', 5), (''E1F1'', 0.1)]))
     [''E1F1'', ''A1B1''] [] = Inl ValueError \<and>
   render_edges [(''A1B1'', 5), (''C1D1'', 5), (''E1F1'', 0.1)] [5] [''E1F1'', ''A1B1''] [] =
     Inr [\<lparr>tail_name = ''E1'', head_name = ''F1'', penwidth = 0.5, color = ''#CC0000'',
           arrowsize = ''1.0'', arrowhead = ''normal''\<rparr>,
          \<lparr>tail_name = ''A1'', head_name = ''B1'', penwidth = 10, color = ''#000000B0'',
           arrowsize = ''1.0'', arrowhead = ''normal''\<rparr>]"
  by (simp add: max_flux_def series_max_def series_values_def style_edge_def split_code_def
      series_get_def classify_def py_min_def py_max_def truth_value_def)

section \<open>Properties of the rounded normalisation\<close>

text \<open>The exponent search returns the binade of its argument.\<close>

lemma pow2_pos: "0 < pow2 e"
  by (simp add: pow2_def)

lemma pow2_Suc: "pow2 (e + 1) = 2 * pow2 e"
proof (cases "0 \<le> e")
  case True
  then show ?thesis by (simp add: pow2_def nat_add_distrib)
next
  case False
  then have "nat (- e) = Suc (nat (- (e + 1)))" by simp
  with False show ?thesis by (simp add: pow2_def)
qed

lemma pow2_mono: "a \<le> b \<Longrightarrow> pow2 a \<le> pow2 b"
proof (induction "nat (b - a)" arbitrary: b)
  case 0
  then show ?case by simp
next
  case (Suc n)
  then have "n = nat ((b - 1) - a)" "a \<le> b - 1" by simp_all
  then have "pow2 a \<le> pow2 (b - 1)" by (rule Suc.hyps(1))
  also have "\<dots> \<le> pow2 ((b - 1) + 1)"
    unfolding pow2_Suc using pow2_pos [of "b - 1"] by simp
  finally show ?case by simp
qed

lemma float_exponent_eq:
  assumes "emin \<le> e" and "e \<le> emax" and "pow2 e \<le> x" and "x < pow2 (e + 1)"
  shows "float_exponent emin emax x = e"
  using assms
proof (induction emin emax x rule: float_exponent.induct)
  case (1 emin emax x)
  show ?case
  proof (cases "emax = e")
    case True
    with "1.prems" show ?thesis by (simp add: float_exponent.simps)
  next
    case False
    with "1.prems" have lt: "e + 1 \<le> emax" by simp
    then have "pow2 (e + 1) \<le> pow2 emax" by (rule pow2_mono)
    with "1.prems" have nle: "\<not> pow2 emax \<le> x" by simp
    from lt "1.prems" have nmin: "\<not> emax \<le> emin" by simp
    from nle nmin have "float_exponent emin emax x = float_exponent emin (emax - 1) x"
      by (subst float_exponent.simps) simp
    also have "\<dots> = e"
      using nle nmin lt "1.prems" by (intro "1.IH") simp_all
    finally show ?thesis .
  qed
qed


lemma round_float_eval:
  assumes "emin \<le> e" and "e \<le> emax" and "pow2 e \<le> \<bar>x\<bar>" and "\<bar>x\<bar> < pow2 (e + 1)"
  shows "round_float p emin emax x =
           of_int (round_half_even (x / pow2 (e - int p + 1))) * pow2 (e - int p + 1)"
  using float_exponent_eq [OF assms] by (simp add: round_float_def Let_def)

lemma float_exponent_bounds:
  assumes "emin \<le> emax" and "pow2 emin \<le> x" and "x < pow2 (emax + 1)"
  shows "emin \<le> float_exponent emin emax x \<and> float_exponent emin emax x \<le> emax \<and>
         pow2 (float_exponent emin emax x) \<le> x \<and> x < pow2 (float_exponent emin emax x + 1)"
  using assms
proof (induction emin emax x rule: float_exponent.induct)
  case (1 emin e x)
  show ?case
  proof (cases "e \<le> emin \<or> pow2 e \<le> x")
    case True
    then have eq: "float_exponent emin e x = e"
      by (subst float_exponent.simps) simp
    from True "1.prems" have "pow2 e \<le> x"
      by (cases "e = emin") auto
    with eq "1.prems" show ?thesis by simp
  next
    case False
    then have eq: "float_exponent emin e x = float_exponent emin (e - 1) x"
      by (subst float_exponent.simps) simp
    from False have "emin \<le> e - 1" "x < pow2 ((e - 1) + 1)" by simp_all
    with "1.IH" [OF False] "1.prems"(2) have
      "emin \<le> float_exponent emin (e - 1) x \<and> float_exponent emin (e - 1) x \<le> e - 1 \<and>
       pow2 (float_exponent emin (e - 1) x) \<le> x \<and>
       x < pow2 (float_exponent emin (e - 1) x + 1)"
      by blast
    then show ?thesis unfolding eq by simp
  qed
qed

lemma pow2_powi: "pow2 e = 2 powi e"
  by (simp add: pow2_def power_int_def field_simps)

lemma abs_scale:
  assumes "0 < (u::real)"
  shows "\<bar>a - b / u\<bar> * u = \<bar>a * u - b\<bar>"
proof -
  have "\<bar>a - b / u\<bar> * u = \<bar>a - b / u\<bar> * \<bar>u\<bar>"
    using assms by simp
  also have "\<dots> = \<bar>(a - b / u) * u\<bar>"
    by (simp add: abs_mult)
  also have "(a - b / u) * u = a * u - b"
    using assms by (simp add: field_simps)
  finally show ?thesis .
qed

lemma pow2_ulp: "pow2 (e - int p + 1) = pow2 e * 2 / 2 ^ p"
proof -
  have "(2::real) powi ((e + 1) - int p) = 2 powi (e + 1) / 2 powi int p"
    by (rule power_int_diff) simp
  also have "(2::real) powi (e + 1) = 2 powi e * 2"
    by (rule power_int_add_1) simp
  finally show ?thesis
    by (simp add: pow2_powi algebra_simps)
qed

text \<open>Rounding moves a number by at most half a unit in the last place.\<close>

lemma round_half_even_error: "\<bar>of_int (round_half_even t) - t\<bar> \<le> 1 / 2"
proof -
  have "of_int \<lfloor>t\<rfloor> \<le> t" "t < of_int \<lfloor>t\<rfloor> + 1"
    by linarith+
  then show ?thesis
    by (auto simp: round_half_even_def Let_def)
qed

lemma round_float_relative_error:
  assumes "emin \<le> emax" and "pow2 emin \<le> x" and "x < pow2 (emax + 1)"
  shows "\<bar>round_float p emin emax x - x\<bar> \<le> x / 2 ^ p"
proof -
  define e where "e = float_exponent emin emax x"
  define u where "u = pow2 (e - int p + 1)"
  have xpos: "0 < x"
    using assms(2) pow2_pos [of emin] by linarith
  have e: "pow2 e \<le> x"
    unfolding e_def using float_exponent_bounds [OF assms] by simp
  have upos: "0 < u"
    unfolding u_def by (rule pow2_pos)
  have u: "u = pow2 e * 2 / 2 ^ p"
    unfolding u_def by (rule pow2_ulp)
  have r: "round_float p emin emax x = of_int (round_half_even (x / u)) * u"
    using xpos by (simp add: round_float_def Let_def e_def u_def)
  have "\<bar>of_int (round_half_even (x / u)) * u - x\<bar> =
        \<bar>of_int (round_half_even (x / u)) - x / u\<bar> * u"
    using abs_scale [OF upos] by simp
  also have "\<dots> \<le> 1 / 2 * u"
    using round_half_even_error [of "x / u"] upos by (intro mult_right_mono) simp_all
  also have "\<dots> = pow2 e / 2 ^ p"
    by (simp add: u)
  also have "\<dots> \<le> x / 2 ^ p"
    using e by (simp add: divide_right_mono)
  finally show ?thesis
    unfolding r .
qed

text \<open>With exact arithmetic the rounded loop body is the loop body.\<close>

lemma clamp_width_single:
  "clamp_width (NDArray [x]) =
     Inr (if x < 10 then (if 0.5 < x then NDArray [x] else PyFloat 0.5) else PyFloat 10)"
  by (simp add: clamp_width_def py_min_def py_max_def truth_value_def)

lemma clamp_width_scalar:
  "\<exists>nn. clamp_width (NDArray [x]) = Inr nn \<and> to_scalar nn = Inr (max 0.5 (min 10 x))"
  by (simp add: clamp_width_single)

lemma classify_fl_exact: "classify_fl (\<lambda>x. x) v maxwidth = classify v maxwidth"
  by (simp add: classify_fl_def classify_def scaled_value_def clamp_width_def Let_def
      split: sum.splits)

lemma style_edge_fl_exact: "style_edge_fl (\<lambda>x. x) dfm maxwidth fl = style_edge dfm maxwidth fl"
  by (simp add: style_edge_fl_def style_edge_def classify_fl_exact cong: sum.case_cong)

lemma style_edge_fl_significant:
  assumes "0.2 \<le> v" and "map_of dfm fl = Some v"
  shows "style_edge_fl rnd dfm [M] fl =
     Inr \<lparr>tail_name = take 2 fl, head_name = drop 2 fl,
          penwidth = max 0.5 (min 10 (rnd (v * rnd (10 / M)))),
          color = ''#000000B0'', arrowsize = ''1.0'', arrowhead = ''normal''\<rparr>"
proof -
  have "\<not> v < 1 / 100000" "\<not> v < 0.2"
    using assms(1) by simp_all
  then have "classify_fl rnd v [M] =
      (case clamp_width (NDArray [rnd (v * rnd (10 / M))]) of Inl e \<Rightarrow> Inl e
       | Inr nn \<Rightarrow> Inr (''#000000B0'', nn))"
    by (simp add: classify_fl_def scaled_value_def Let_def)
  moreover obtain nn where "clamp_width (NDArray [rnd (v * rnd (10 / M))]) = Inr nn"
    and "to_scalar nn = Inr (max 0.5 (min 10 (rnd (v * rnd (10 / M)))))"
    using clamp_width_scalar by blast
  ultimately show ?thesis
    using assms(2) by (simp add: style_edge_fl_def split_code_def series_get_def)
qed

lemma round_trip_width_eq:
  "round_trip_width rnd M = Inr (max 0.5 (min 10 (rnd (M * rnd (10 / M)))))"
proof -
  obtain nn where "clamp_width (NDArray [rnd (M * rnd (10 / M))]) = Inr nn"
    and "to_scalar nn = Inr (max 0.5 (min 10 (rnd (M * rnd (10 / M)))))"
    using clamp_width_scalar by blast
  then show ?thesis
    by (simp add: round_trip_width_def scaled_value_def)
qed

text \<open>
  A product within \<open>10 / 2 ^ p\<close> of 10 rounds to 10 or to one of its two neighbours, and
  the clamp removes the upper one.
\<close>

lemma round_float_near_ten:
  assumes p: "3 \<le> p" and e3: "emin \<le> 3" "3 \<le> emax"
    and z: "\<bar>z - 10\<bar> \<le> 10 / 2 ^ p"
  shows "min 10 (round_float p emin emax z) = 10 \<or>
         min 10 (round_float p emin emax z) = 10 - pow2 (4 - int p)"
proof -
  define u where "u = pow2 (4 - int p)"
  define N :: int where "N = 5 * 2 ^ (p - 3)"
  define n where "n = round_half_even (z / u)"
  have p8: "(8::real) \<le> 2 ^ p"
    using power_increasing [OF p, of "2::real"] by simp
  have "10 / 2 ^ p \<le> (10::real) / 8"
    using p8 by (intro divide_left_mono) simp_all
  with z have zr: "8 \<le> z" "z < 16" by (simp_all add: abs_le_iff)
  have u: "u = 16 / 2 ^ p"
    using pow2_ulp [of 3 p] by (simp add: u_def pow2_def)
  have upos: "0 < u"
    unfolding u_def by (rule pow2_pos)
  have "(2::real) ^ p = 2 ^ (3 + (p - 3))"
    using p by simp
  then have p2: "(2::real) ^ p = 8 * 2 ^ (p - 3)"
    by (simp only: power_add) simp
  have N: "of_int N * u = 10"
    by (simp add: N_def u p2)
  have r: "round_float p emin emax z = of_int n * u"
    using round_float_eval [of emin 3 emax z p] e3 zr
    by (simp add: pow2_def n_def u_def)
  have "\<bar>z / u - of_int N\<bar> * u = \<bar>z - of_int N * u\<bar>"
    using abs_scale [OF upos, of "of_int N" z] by (simp add: abs_minus_commute)
  also have "\<dots> \<le> 10 / 2 ^ p"
    using z by (simp add: N)
  also have "\<dots> = 5 / 8 * u"
    by (simp add: u)
  finally have "\<bar>z / u - of_int N\<bar> \<le> 5 / 8"
    using upos by simp
  moreover have "\<bar>of_int n - z / u\<bar> \<le> 1 / 2"
    unfolding n_def by (rule round_half_even_error)
  ultimately have "\<bar>real_of_int n - real_of_int N\<bar> < 2"
    by linarith
  then have "\<bar>n - N\<bar> < 2"
    by linarith
  then consider "n = N - 1" | "n = N" | "n = N + 1"
    by linarith
  then show ?thesis
  proof cases
    case 1
    then have "of_int n * u = 10 - u"
      using N by (simp add: left_diff_distrib)
    then show ?thesis
      using upos by (simp add: r u_def)
  next
    case 2
    then show ?thesis using N by (simp add: r)
  next
    case 3
    then have "of_int n * u = 10 + u"
      using N by (simp add: distrib_right)
    then show ?thesis
      using upos by (simp add: r)
  qed
qed

lemma round_trip_ieee:
  assumes p: "3 \<le> p" and e3: "emin \<le> 3" "3 \<le> emax" and M: "0 < M"
    and q: "pow2 emin \<le> 10 / M" "10 / M < pow2 (emax + 1)"
  shows "round_trip_width (round_float p emin emax) M = Inr 10 \<or>
         round_trip_width (round_float p emin emax) M = Inr (10 - pow2 (4 - int p))"
proof -
  let ?rnd = "round_float p emin emax"
  have "emin \<le> emax" using e3 by simp
  then have "\<bar>?rnd (10 / M) - 10 / M\<bar> \<le> (10 / M) / 2 ^ p"
    using q by (rule round_float_relative_error)
  then have "\<bar>?rnd (10 / M) - 10 / M\<bar> * M \<le> (10 / M) / 2 ^ p * M"
    using M by (intro mult_right_mono) simp_all
  moreover have "\<bar>?rnd (10 / M) - 10 / M\<bar> * M = \<bar>M * ?rnd (10 / M) - 10\<bar>"
    using abs_scale [OF M, of "?rnd (10 / M)" 10] by (simp add: mult.commute)
  moreover have "(10 / M) / 2 ^ p * M = 10 / 2 ^ p"
    using M by simp
  ultimately have z: "\<bar>M * ?rnd (10 / M) - 10\<bar> \<le> 10 / 2 ^ p"
    by simp
  have p4: "(4::real) \<le> 2 ^ p"
    using power_increasing [of 2 p "2::real"] p by simp
  have "pow2 (4 - int p) = 16 / 2 ^ p"
    using pow2_ulp [of 3 p] by (simp add: pow2_def)
  also have "\<dots> \<le> 16 / 4"
    using p4 by (intro divide_left_mono) simp_all
  finally have u: "pow2 (4 - int p) \<le> 4" by simp
  from round_float_near_ten [OF p e3 z] show ?thesis
  proof
    assume "min 10 (?rnd (M * ?rnd (10 / M))) = 10"
    then show ?thesis by (simp add: round_trip_width_eq)
  next
    assume "min 10 (?rnd (M * ?rnd (10 / M))) = 10 - pow2 (4 - int p)"
    then show ?thesis using u by (simp add: round_trip_width_eq)
  qed
qed

text \<open>The two roundings at \<open>M = 16.625\<close> in float32 and at \<open>M = 77\<close> in float64.\<close>

lemma round_binary32_quotient: "round_binary32 (10 / (133 / 8)) = 5045779 / 8388608"
  unfolding round_binary32_def
  by (subst round_float_eval [where e = "- 1"]) (simp_all add: pow2_def round_half_even_def)

lemma round_binary32_product:
  "round_binary32 (133 / 8 * (5045779 / 8388608)) = 10485759 / 1048576"
  unfolding round_binary32_def
  by (subst round_float_eval [where e = 3]) (simp_all add: pow2_def round_half_even_def)

lemma round_binary64_quotient:
  "round_binary64 (10 / 77) = 2339532273958699 / 18014398509481984"
  unfolding round_binary64_def
  by (subst round_float_eval [where e = "- 3"]) (simp_all add: pow2_def round_half_even_def)

lemma round_binary64_product:
  "round_binary64 (77 * (2339532273958699 / 18014398509481984)) =
     5629499534213119 / 562949953421312"
  unfolding round_binary64_def
  by (subst round_float_eval [where e = 3]) (simp_all add: pow2_def round_half_even_def)

text \<open>
  C6 as stated fails in the arithmetic of the notebook. In float32 the single maximum
  \<open>M = 16.625\<close> is drawn with pen width \<open>10 - 2 ^ -20\<close> (9.999999046325684), and in
  float64 the single maximum \<open>M = 77\<close> with \<open>10 - 2 ^ -49\<close> (9.999999999999998): the
  rounded product lies below 10, and \<^verbatim>\<open>min(10., nvalue)\<close> leaves it there.
\<close>

theorem round_trip_counterexample:
  "series_values (max_flux [(''H1Y2'', 1), (''Q6Y4'', 133 / 8)]) = [133 / 8] \<and>
   style_edge_fl round_binary32 [(''H1Y2'', 1), (''Q6Y4'', 133 / 8)]
       (series_values (max_flux [(''H1Y2'', 1), (''Q6Y4'', 133 / 8)])) ''Q6Y4'' =
     Inr \<lparr>tail_name = ''Q6'', head_name = ''Y4'', penwidth = 10485759 / 1048576,
          color = ''#000000B0'', arrowsize = ''1.0'', arrowhead = ''normal''\<rparr> \<and>
   (10485759 / 1048576 :: real) < 10 \<and>
   series_values (max_flux [(''H1Y2'', 1), (''Q6G3'', 77)]) = [77] \<and>
   style_edge_fl round_binary64 [(''H1Y2'', 1), (''Q6G3'', 77)]
       (series_values (max_flux [(''H1Y2'', 1), (''Q6G3'', 77)])) ''Q6G3'' =
     Inr \<lparr>tail_name = ''Q6'', head_name = ''G3'',
          penwidth = 5629499534213119 / 562949953421312,
          color = ''#000000B0'', arrowsize = ''1.0'', arrowhead = ''normal''\<rparr> \<and>
   (5629499534213119 / 562949953421312 :: real) < 10"
proof -
  have m32: "series_values (max_flux [(''H1Y2'', 1), (''Q6Y4'', 133 / 8)]) = [133 / 8]"
    by (simp add: max_flux_def series_max_def series_values_def)
  have m64: "series_values (max_flux [(''H1Y2'', 1), (''Q6G3'', 77)]) = [77]"
    by (simp add: max_flux_def series_max_def series_values_def)
  have p32: "round_binary32 (133 / 8 * round_binary32 (10 / (133 / 8))) = 10485759 / 1048576"
    by (simp only: round_binary32_quotient round_binary32_product)
  have p64: "round_binary64 (77 * round_binary64 (10 / 77)) =
      5629499534213119 / 562949953421312"
    by (simp only: round_binary64_quotient round_binary64_product)
  have "style_edge_fl round_binary32 [(''H1Y2'', 1), (''Q6Y4'', 133 / 8)] [133 / 8] ''Q6Y4'' =
     Inr \<lparr>tail_name = take 2 ''Q6Y4'', head_name = drop 2 ''Q6Y4'',
          penwidth = max 0.5 (min 10 (round_binary32 (133 / 8 * round_binary32 (10 / (133 / 8))))),
          color = ''#000000B0'', arrowsize = ''1.0'', arrowhead = ''normal''\<rparr>"
    by (rule style_edge_fl_significant) simp_all
  then have e32:
    "style_edge_fl round_binary32 [(''H1Y2'', 1), (''Q6Y4'', 133 / 8)] [133 / 8] ''Q6Y4'' =
     Inr \<lparr>tail_name = ''Q6'', head_name = ''Y4'', penwidth = 10485759 / 1048576,
          color = ''#000000B0'', arrowsize = ''1.0'', arrowhead = ''normal''\<rparr>"
    unfolding p32 by simp
  have "style_edge_fl round_binary64 [(''H1Y2'', 1), (''Q6G3'', 77)] [77] ''Q6G3'' =
     Inr \<lparr>tail_name = take 2 ''Q6G3'', head_name = drop 2 ''Q6G3'',
          penwidth = max 0.5 (min 10 (round_binary64 (77 * round_binary64 (10 / 77)))),
          color = ''#000000B0'', arrowsize = ''1.0'', arrowhead = ''normal''\<rparr>"
    by (rule style_edge_fl_significant) simp_all
  then have e64: "style_edge_fl round_binary64 [(''H1Y2'', 1), (''Q6G3'', 77)] [77] ''Q6G3'' =
     Inr \<lparr>tail_name = ''Q6'', head_name = ''G3'',
          penwidth = 5629499534213119 / 562949953421312,
          color = ''#000000B0'', arrowsize = ''1.0'', arrowhead = ''normal''\<rparr>"
    unfolding p64 by simp
  show ?thesis
    unfolding m32 m64 e32 e64 by simp
qed

text \<open>
  C6, amended. For a maximum mean flux \<open>M > 0\<close> held by one column, feeding \<open>M\<close> through
  the formula of the third branch yields the pen width \<open>rnd (M * rnd (10 / M))\<close> clamped to
  \<open>[0.5, 10]\<close>, where \<open>rnd\<close> rounds to the float type of the table. In exact arithmetic it
  is exactly 10. In a float type with \<open>p \<ge> 3\<close> significant bits, whenever \<open>10 / M\<close> lies in
  the normal exponent range, it is either 10 or \<open>10 - 2 ^ (4 - p)\<close>, and never more than 10.
  For \<open>M \<ge> 0.2\<close> this is the pen width of the edge drawn for the maximum.
\<close>

theorem max_flux_round_trip:
  assumes "0 < M"
  shows "round_trip_width (\<lambda>x. x) M = Inr 10 \<and>
         round_trip_width rnd M = Inr (max 0.5 (min 10 (rnd (M * rnd (10 / M))))) \<and>
         (\<exists>w. round_trip_width rnd M = Inr w \<and> 0.5 \<le> w \<and> w \<le> 10) \<and>
         (3 \<le> p \<and> emin \<le> 3 \<and> 3 \<le> emax \<and> pow2 emin \<le> 10 / M \<and> 10 / M < pow2 (emax + 1) \<longrightarrow>
            round_trip_width (round_float p emin emax) M = Inr 10 \<or>
            round_trip_width (round_float p emin emax) M = Inr (10 - pow2 (4 - int p))) \<and>
         (0.2 \<le> M \<and> map_of dfm fl = Some M \<longrightarrow>
            (\<exists>w. round_trip_width rnd M = Inr w \<and>
                 style_edge_fl rnd dfm [M] fl =
                   Inr \<lparr>tail_name = take 2 fl, head_name = drop 2 fl, penwidth = w,
                        color = ''#000000B0'', arrowsize = ''1.0'', arrowhead = ''normal''\<rparr>))"
proof -
  have exact: "round_trip_width (\<lambda>x. x) M = Inr 10"
    using assms by (simp add: round_trip_width_eq)
  have range: "\<exists>w. round_trip_width rnd M = Inr w \<and> 0.5 \<le> w \<and> w \<le> 10"
    unfolding round_trip_width_eq by (simp add: max_def min_def)
  have ieee: "round_trip_width (round_float p emin emax) M = Inr 10 \<or>
            round_trip_width (round_float p emin emax) M = Inr (10 - pow2 (4 - int p))"
    if "3 \<le> p \<and> emin \<le> 3 \<and> 3 \<le> emax \<and> pow2 emin \<le> 10 / M \<and> 10 / M < pow2 (emax + 1)"
    using that assms by (intro round_trip_ieee) simp_all
  have edge: "\<exists>w. round_trip_width rnd M = Inr w \<and>
                 style_edge_fl rnd dfm [M] fl =
                   Inr \<lparr>tail_name = take 2 fl, head_name = drop 2 fl, penwidth = w,
                        color = ''#000000B0'', arrowsize = ''1.0'', arrowhead = ''normal''\<rparr>"
    if "0.2 \<le> M \<and> map_of dfm fl = Some M"
    using that style_edge_fl_significant [of M dfm fl rnd M]
    by (simp only: round_trip_width_eq) blast
  from exact range ieee edge show ?thesis
    by (intro conjI impI round_trip_width_eq)
qed

theorem max_flux_round_trip_witness:
  "round_trip_width (\<lambda>x. x) (133 / 8) = Inr 10 \<and>
   round_trip_width round_binary32 (133 / 8) = Inr (10485759 / 1048576) \<and>
   (10485759 / 1048576 :: real) = 10 - pow2 (4 - int 24) \<and>
   style_edge_fl round_binary32 [(''H1Y2'', 1), (''Q6Y4'', 133 / 8)] [133 / 8] ''Q6Y4'' =
     Inr \<lparr>tail_name = ''Q6'', head_name = ''Y4'', penwidth = 10485759 / 1048576,
          color = ''#000000B0'', arrowsize = ''1.0'', arrowhead = ''normal''\<rparr>"
proof -
  note inst = max_flux_round_trip [of "133 / 8" round_binary32 24 "- 126" 127
      "[(''H1Y2'', 1), (''Q6Y4'', 133 / 8)]" "''Q6Y4''"]
  have pos: "(0::real) < 133 / 8" by simp
  have hyp: "3 \<le> (24::nat) \<and> (- 126::int) \<le> 3 \<and> (3::int) \<le> 127 \<and>
      pow2 (- 126) \<le> 10 / (133 / 8) \<and> 10 / (133 / 8) < pow2 (127 + 1)"
    by (simp add: pow2_def)
  have sig: "0.2 \<le> (133 / 8 :: real) \<and>
      map_of [(''H1Y2'', 1), (''Q6Y4'', 133 / 8 :: real)] ''Q6Y4'' = Some (133 / 8)"
    by simp
  have val: "max 0.5 (min 10 (round_binary32 (133 / 8 * round_binary32 (10 / (133 / 8))))) =
      10485759 / 1048576"
    by (simp only: round_binary32_quotient round_binary32_product)
  have u: "(10485759 / 1048576 :: real) = 10 - pow2 (4 - int 24)"
    by (simp add: pow2_def)
  from inst [OF pos] have
    a: "round_trip_width (\<lambda>x. x) (133 / 8) = Inr 10" and
    b: "round_trip_width round_binary32 (133 / 8) =
          Inr (max 0.5 (min 10 (round_binary32 (133 / 8 * round_binary32 (10 / (133 / 8))))))" and
    c: "round_trip_width (round_float 24 (- 126) 127) (133 / 8) = Inr 10 \<or>
        round_trip_width (round_float 24 (- 126) 127) (133 / 8) = Inr (10 - pow2 (4 - int 24))" and
    d: "\<exists>w. round_trip_width round_binary32 (133 / 8) = Inr w \<and>
          style_edge_fl round_binary32 [(''H1Y2'', 1), (''Q6Y4'', 133 / 8)] [133 / 8] ''Q6Y4'' =
            Inr \<lparr>tail_name = take 2 ''Q6Y4'', head_name = drop 2 ''Q6Y4'', penwidth = w,
                 color = ''#000000B0'', arrowsize = ''1.0'', arrowhead = ''normal''\<rparr>"
    using hyp sig by blast+
  from b have b': "round_trip_width round_binary32 (133 / 8) = Inr (10485759 / 1048576)"
    unfolding val .
  from d b' have "style_edge_fl round_binary32 [(''H1Y2'', 1), (''Q6Y4'', 133 / 8)] [133 / 8] ''Q6Y4'' =
     Inr \<lparr>tail_name = ''Q6'', head_name = ''Y4'', penwidth = 10485759 / 1048576,
          color = ''#000000B0'', arrowsize = ''1.0'', arrowhead = ''normal''\<rparr>"
    by auto
  with a b' u show ?thesis by blast
qed

section \<open>Properties of the year filter\<close>

lemma bool_index_Nil [simp]: "bool_index [] xs = []" "bool_index keep [] = []"
  by (simp_all add: bool_index_def)

lemma bool_index_Cons [simp]:
  "bool_index (b # keep) (x # xs) = (if b then x # bool_index keep xs else bool_index keep xs)"
  by (simp add: bool_index_def)

lemma bool_index_self: "bool_index (map P xs) xs = filter P xs"
  by (induction xs) simp_all

lemma bool_index_zip:
  "bool_index (map P ts) c = map snd (filter (\<lambda>tx. P (fst tx)) (zip ts c))"
proof (induction ts arbitrary: c)
  case Nil
  show ?case by simp
next
  case (Cons t ts)
  show ?case
  proof (cases c)
    case Nil
    then show ?thesis by simp
  next
    case (Cons x xs)
    with Cons.IH [of xs] show ?thesis by simp
  qed
qed

lemma bool_index_length_le: "length (bool_index keep xs) \<le> length (filter (\<lambda>b. b) keep)"
proof (induction keep arbitrary: xs)
  case Nil
  show ?case by simp
next
  case (Cons b keep)
  show ?case
  proof (cases xs)
    case Nil
    then show ?thesis by simp
  next
    case (Cons x xs')
    with Cons.IH [of xs'] show ?thesis by simp
  qed
qed

lemma bool_index_all_True: "bool_index (replicate n True) xs = take n xs"
proof (induction n arbitrary: xs)
  case 0
  show ?case by simp
next
  case (Suc n)
  then show ?case by (cases xs) simp_all
qed

lemma bool_index_none: "bool_index (replicate n False) xs = []"
proof (induction n arbitrary: xs)
  case 0
  show ?case by simp
next
  case (Suc n)
  then show ?case by (cases xs) simp_all
qed

lemma map_filter_True: "map P (filter P ts) = replicate (length (filter P ts)) True"
  by (induction ts) simp_all

lemma map_filter_False: "filter P ts = [] \<Longrightarrow> map P ts = replicate (length ts) False"
  by (induction ts) (simp_all split: if_splits)

lemma bool_index_again:
  "bool_index (map P (filter P ts)) (bool_index (map P ts) c) = bool_index (map P ts) c"
proof -
  have "bool_index (map P (filter P ts)) (bool_index (map P ts) c) =
        take (length (filter P ts)) (bool_index (map P ts) c)"
    by (simp only: map_filter_True [of P ts] bool_index_all_True)
  moreover have "length (bool_index (map P ts) c) \<le> length (filter (\<lambda>b. b) (map P ts))"
    by (rule bool_index_length_le)
  moreover have "length (filter (\<lambda>b. b) (map P ts)) = length (filter P ts)"
    by (induction ts) simp_all
  ultimately show ?thesis by simp
qed

lemma index_year_filter: "index (year_filter y df) = filter (\<lambda>t. year t = y) (index df)"
  by (simp add: year_filter_def Let_def bool_index_self)

lemma columns_year_filter:
  "columns (year_filter y df) =
     map (\<lambda>kc. (fst kc, bool_index (map (\<lambda>t. year t = y) (index df)) (snd kc))) (columns df)"
  by (simp add: year_filter_def Let_def)

lemma year_filter_no_rows:
  assumes "filter (\<lambda>t. year t = y) (index df) = []"
  shows "year_filter y df = \<lparr>index = [], columns = map (\<lambda>kc. (fst kc, [])) (columns df)\<rparr>"
proof -
  have "map (\<lambda>t. year t = y) (index df) = replicate (length (index df)) False"
    using assms by (rule map_filter_False)
  then show ?thesis
    by (simp add: year_filter_def Let_def bool_index_none)
qed

text \<open>
  C8. Filtering a table that is already filtered to a year, to the same year, returns it
  unchanged.
\<close>

theorem year_filter_idempotent: "year_filter y (year_filter y df) = year_filter y df"
proof -
  have "index (year_filter y (year_filter y df)) = index (year_filter y df)"
    by (simp add: index_year_filter)
  moreover have "columns (year_filter y (year_filter y df)) = columns (year_filter y df)"
    by (simp add: columns_year_filter index_year_filter bool_index_again comp_def)
  ultimately show ?thesis
    by simp
qed

text \<open>
  C4 as stated fails: with no row in the target year the filter step returns both tables
  without rows; it raises nothing.
\<close>

theorem empty_window_counterexample:
  "filter_tables 2016
     \<lparr>index = [\<lparr>year = 2015, month = 12, day = 31, nanosecond_of_day = 0\<rparr>],
      columns = [(''R4Q6'', [1])]\<rparr>
     \<lparr>index = [\<lparr>year = 2015, month = 12, day = 31, nanosecond_of_day = 0\<rparr>],
      columns = [(''Q1'', [2])]\<rparr> =
   Inr (\<lparr>index = [], columns = [(''R4Q6'', [])]\<rparr>, \<lparr>index = [], columns = [(''Q1'', [])]\<rparr>)"
  by (simp add: filter_tables_def year_filter_def Let_def)

text \<open>
  C4, amended. The filter step never fails. From each table it keeps every column and, in
  order, exactly the rows whose timestamp lies in the target year, each with its values;
  when no row matches, it returns the table with the same columns and no rows.
\<close>

theorem year_filter_total:
  "\<exists>df' dv'. filter_tables y df dv = Inr (df', dv') \<and>
     index df' = filter (\<lambda>t. year t = y) (index df) \<and>
     index dv' = filter (\<lambda>t. year t = y) (index dv) \<and>
     columns df' =
       map (\<lambda>kc. (fst kc, bool_index (map (\<lambda>t. year t = y) (index df)) (snd kc))) (columns df) \<and>
     columns dv' =
       map (\<lambda>kc. (fst kc, bool_index (map (\<lambda>t. year t = y) (index dv)) (snd kc))) (columns dv) \<and>
     columns df' =
       map (\<lambda>kc. (fst kc, map snd (filter (\<lambda>tx. year (fst tx) = y) (zip (index df) (snd kc)))))
         (columns df) \<and>
     columns dv' =
       map (\<lambda>kc. (fst kc, map snd (filter (\<lambda>tx. year (fst tx) = y) (zip (index dv) (snd kc)))))
         (columns dv) \<and>
     map fst (columns df') = map fst (columns df) \<and>
     map fst (columns dv') = map fst (columns dv) \<and>
     (filter (\<lambda>t. year t = y) (index df) = [] \<longrightarrow>
        df' = \<lparr>index = [], columns = map (\<lambda>kc. (fst kc, [])) (columns df)\<rparr>) \<and>
     (filter (\<lambda>t. year t = y) (index dv) = [] \<longrightarrow>
        dv' = \<lparr>index = [], columns = map (\<lambda>kc. (fst kc, [])) (columns dv)\<rparr>)"
proof -
  have "filter_tables y df dv = Inr (year_filter y df, year_filter y dv)"
    by (simp add: filter_tables_def)
  moreover have "columns (year_filter y t) =
       map (\<lambda>kc. (fst kc, map snd (filter (\<lambda>tx. year (fst tx) = y) (zip (index t) (snd kc)))))
         (columns t)" for t
    by (simp add: columns_year_filter bool_index_zip)
  moreover have "map fst (columns (year_filter y t)) = map fst (columns t)" for t
    by (simp add: columns_year_filter comp_def)
  ultimately show ?thesis
    using index_year_filter [of y df] index_year_filter [of y dv]
      columns_year_filter [of y df] columns_year_filter [of y dv]
      year_filter_no_rows [of y df] year_filter_no_rows [of y dv]
    by blast
qed

theorem year_filter_total_witness:
  "(\<exists>df' dv'.
     filter_tables 2016
       \<lparr>index = [\<lparr>year = 2015, month = 12, day = 31, nanosecond_of_day = 0\<rparr>,
                 \<lparr>year = 2016, month = 1, day = 1, nanosecond_of_day = 0\<rparr>,
                 \<lparr>year = 2016, month = 1, day = 2, nanosecond_of_day = 0\<rparr>,
                 \<lparr>year = 2017, month = 1, day = 1, nanosecond_of_day = 0\<rparr>],
        columns = [(''R4Q6'', [1, 2, 3, 4]), (''R4Q7'', [5, 6, 7, 8])]\<rparr>
       \<lparr>index = [\<lparr>year = 2015, month = 12, day = 31, nanosecond_of_day = 0\<rparr>],
        columns = [(''Q1'', [3])]\<rparr> = Inr (df', dv') \<and>
     df' = \<lparr>index = [\<lparr>year = 2016, month = 1, day = 1, nanosecond_of_day = 0\<rparr>,
                      \<lparr>year = 2016, month = 1, day = 2, nanosecond_of_day = 0\<rparr>],
            columns = [(''R4Q6'', [2, 3]), (''R4Q7'', [6, 7])]\<rparr> \<and>
     dv' = \<lparr>index = [], columns = [(''Q1'', [])]\<rparr>) \<and>
   (\<exists>df' dv'.
     filter_tables 2016
       \<lparr>index = [\<lparr>year = 2017, month = 1, day = 1, nanosecond_of_day = 0\<rparr>],
        columns = [(''R4Q6'', [1]), (''R4Q7'', [4])]\<rparr>
       \<lparr>index = [\<lparr>year = 2016, month = 6, day = 30, nanosecond_of_day = 0\<rparr>],
        columns = [(''Q1'', [3])]\<rparr> = Inr (df', dv') \<and>
     df' = \<lparr>index = [], columns = [(''R4Q6'', []), (''R4Q7'', [])]\<rparr> \<and>
     dv' = \<lparr>index = [\<lparr>year = 2016, month = 6, day = 30, nanosecond_of_day = 0\<rparr>],
            columns = [(''Q1'', [3])]\<rparr>)"
proof -
  let ?df1 = "\<lparr>index = [\<lparr>year = 2015, month = 12, day = 31, nanosecond_of_day = 0\<rparr>,
                 \<lparr>year = 2016, month = 1, day = 1, nanosecond_of_day = 0\<rparr>,
                 \<lparr>year = 2016, month = 1, day = 2, nanosecond_of_day = 0\<rparr>,
                 \<lparr>year = 2017, month = 1, day = 1, nanosecond_of_day = 0\<rparr>],
        columns = [(''R4Q6'', [1, 2, 3, 4]), (''R4Q7'', [5, 6, 7, 8])]\<rparr>"
  let ?dv1 = "\<lparr>index = [\<lparr>year = 2015, month = 12, day = 31, nanosecond_of_day = 0\<rparr>],
        columns = [(''Q1'', [3::real])]\<rparr>"
  let ?df2 = "\<lparr>index = [\<lparr>year = 2017, month = 1, day = 1, nanosecond_of_day = 0\<rparr>],
        columns = [(''R4Q6'', [1::real]), (''R4Q7'', [4])]\<rparr>"
  let ?dv2 = "\<lparr>index = [\<lparr>year = 2016, month = 6, day = 30, nanosecond_of_day = 0\<rparr>],
        columns = [(''Q1'', [3::real])]\<rparr>"
  from year_filter_total [of 2016 ?df1 ?dv1] obtain df' dv'
    where "filter_tables 2016 ?df1 ?dv1 = Inr (df', dv')"
      and "index df' = filter (\<lambda>t. year t = 2016) (index ?df1)"
      and "columns df' = map (\<lambda>kc. (fst kc, bool_index (map (\<lambda>t. year t = 2016) (index ?df1)) (snd kc))) (columns ?df1)"
      and "filter (\<lambda>t. year t = 2016) (index ?dv1) = [] \<longrightarrow>
        dv' = \<lparr>index = [], columns = map (\<lambda>kc. (fst kc, [])) (columns ?dv1)\<rparr>"
    by blast
  then have a: "filter_tables 2016 ?df1 ?dv1 = Inr (df', dv') \<and>
     df' = \<lparr>index = [\<lparr>year = 2016, month = 1, day = 1, nanosecond_of_day = 0\<rparr>,
                      \<lparr>year = 2016, month = 1, day = 2, nanosecond_of_day = 0\<rparr>],
            columns = [(''R4Q6'', [2, 3]), (''R4Q7'', [6, 7])]\<rparr> \<and>
     dv' = \<lparr>index = [], columns = [(''Q1'', [])]\<rparr>"
    by (cases df') simp
  from year_filter_total [of 2016 ?df2 ?dv2] obtain df'' dv''
    where "filter_tables 2016 ?df2 ?dv2 = Inr (df'', dv'')"
      and "index dv'' = filter (\<lambda>t. year t = 2016) (index ?dv2)"
      and "columns dv'' = map (\<lambda>kc. (fst kc, bool_index (map (\<lambda>t. year t = 2016) (index ?dv2)) (snd kc))) (columns ?dv2)"
      and "filter (\<lambda>t. year t = 2016) (index ?df2) = [] \<longrightarrow>
        df'' = \<lparr>index = [], columns = map (\<lambda>kc. (fst kc, [])) (columns ?df2)\<rparr>"
    by blast
  then have b: "filter_tables 2016 ?df2 ?dv2 = Inr (df'', dv'') \<and>
     df'' = \<lparr>index = [], columns = [(''R4Q6'', []), (''R4Q7'', [])]\<rparr> \<and>
     dv'' = \<lparr>index = [\<lparr>year = 2016, month = 6, day = 30, nanosecond_of_day = 0\<rparr>],
            columns = [(''Q1'', [3])]\<rparr>"
    by (cases dv'') simp
  from a b show ?thesis by blast
qed

section \<open>Properties of the flux table builder\<close>

lemma bind_e_Inr: "bind_e m f = Inr y \<longleftrightarrow> (\<exists>x. m = Inr x \<and> f x = Inr y)"
  by (cases m) (simp_all add: bind_e_def)

lemma set_column_Inr:
  "set_column df k a = Inr df' \<longleftrightarrow>
     length a = length (index df) \<and> df' = df\<lparr>columns := AList.update k a (columns df)\<rparr>"
  by (auto simp: set_column_def)

lemma xvar_Inr: "xvar xd v = Inr a \<longleftrightarrow> data_vars xd v = Some a"
  by (simp add: xvar_def split: option.splits)

lemma column_Inr: "column df k = Inr c \<longleftrightarrow> map_of (columns df) k = Some c"
  by (simp add: column_def split: option.splits)

lemma ew_add_Inr: "ew_add a b = Inr c \<longleftrightarrow> length a = length b \<and> c = map2 (+) a b"
  by (auto simp: ew_add_def)

lemma run_assignments_append:
  "run_assignments (ss @ ts) xd df = bind_e (run_assignments ss xd df) (run_assignments ts xd)"
proof (induction ss arbitrary: df)
  case Nil
  show ?case by (simp add: bind_e_def)
next
  case (Cons s ss)
  show ?case
  proof (cases "snd s xd df")
    case (Inl e)
    then show ?thesis by (simp add: bind_e_def)
  next
    case (Inr a)
    then show ?thesis
      by (cases "set_column df (fst s) a") (simp_all add: bind_e_def Cons.IH)
  qed
qed

lemma run_assignments_frame:
  assumes "run_assignments ss xd df = Inr df'" and "k \<notin> fst ` set ss"
  shows "map_of (columns df') k = map_of (columns df) k \<and> index df' = index df"
  using assms
proof (induction ss arbitrary: df)
  case Nil
  then show ?case by simp
next
  case (Cons s ss)
  from Cons.prems(1) obtain a df1
    where a: "snd s xd df = Inr a"
      and s1: "set_column df (fst s) a = Inr df1"
      and rest: "run_assignments ss xd df1 = Inr df'"
    by (auto simp: bind_e_Inr)
  from s1 have df1: "df1 = df\<lparr>columns := AList.update (fst s) a (columns df)\<rparr>"
    by (simp add: set_column_Inr)
  from Cons.prems(2) have "k \<noteq> fst s" "k \<notin> fst ` set ss" by auto
  with Cons.IH [OF rest] df1 show ?case
    by (simp add: update_conv')
qed

lemma run_assignments_index:
  assumes "run_assignments ss xd df = Inr df'"
  shows "index df' = index df"
  using assms
proof (induction ss arbitrary: df)
  case Nil
  then show ?case by simp
next
  case (Cons s ss)
  from Cons.prems obtain a df1
    where s1: "set_column df (fst s) a = Inr df1"
      and rest: "run_assignments ss xd df1 = Inr df'"
    by (auto simp: bind_e_Inr)
  from s1 have "index df1 = index df" by (auto simp: set_column_Inr)
  with Cons.IH [OF rest] show ?case by simp
qed

lemma nth_map2:
  "length xs = length ys \<Longrightarrow> i < length xs \<Longrightarrow> map2 f xs ys ! i = f (xs ! i) (ys ! i)"
  by simp

lemma return_flux_two_prey:
  assumes "return_flux r q k1 k2 p0 [p1, p2] xd df = Inr a"
  shows "\<exists>ra qs c0 c1 c2.
           data_vars xd r = Some ra \<and> map_of (columns df) q = Some qs \<and>
           map_of (columns df) p0 = Some c0 \<and> map_of (columns df) p1 = Some c1 \<and>
           map_of (columns df) p2 = Some c2 \<and>
           length ra = length a \<and> length qs = length a \<and> length c0 = length a \<and>
           length c1 = length a \<and> length c2 = length a \<and>
           (\<forall>i < length a. a ! i = ra ! i + qs ! i * k1 + k2 * (c0 ! i + c1 ! i + c2 ! i))"
proof -
  from assms obtain ra qs s c0 w
    where ra: "data_vars xd r = Some ra"
      and qs: "map_of (columns df) q = Some qs"
      and ls: "length ra = length qs" and s: "s = map2 (+) ra (map (\<lambda>x. x * k1) qs)"
      and c0: "map_of (columns df) p0 = Some c0"
      and w: "col_sum df c0 [p1, p2] = Inr w"
      and la: "length s = length w" and a: "a = map2 (+) s (map (\<lambda>x. k2 * x) w)"
    by (auto simp: return_flux_def bind_e_Inr xvar_Inr column_Inr ew_add_Inr)
  from w obtain c1 c2 u
    where c1: "map_of (columns df) p1 = Some c1" and l1: "length c0 = length c1"
      and u: "u = map2 (+) c0 c1"
      and c2: "map_of (columns df) p2 = Some c2" and l2: "length u = length c2"
      and weq: "w = map2 (+) u c2"
    by (auto simp: bind_e_Inr column_Inr ew_add_Inr)
  have lu: "length u = length c0" using u l1 by simp
  have lw: "length w = length c0" using weq lu l2 by simp
  have lsq: "length s = length ra" using s ls by simp
  have laa: "length a = length s" using a la by simp
  have len: "length ra = length a" "length qs = length a" "length c0 = length a"
            "length c1 = length a" "length c2 = length a"
    using lu lw lsq laa ls la l1 l2 by simp_all
  have "a ! i = ra ! i + qs ! i * k1 + k2 * (c0 ! i + c1 ! i + c2 ! i)" if i: "i < length a" for i
  proof -
    have "u ! i = c0 ! i + c1 ! i"
      unfolding u using l1 i len by (simp only: nth_map2)
    moreover have "w ! i = u ! i + c2 ! i"
      unfolding weq using l2 lu i len by (simp only: nth_map2)
    moreover have "s ! i = ra ! i + qs ! i * k1"
      unfolding s using ls i len by simp
    moreover have "a ! i = s ! i + k2 * w ! i"
      unfolding a using la i laa by simp
    ultimately show ?thesis by simp
  qed
  with ra qs c0 c1 c2 len show ?thesis by blast
qed

lemma deposit_feeder_split:
  "deposit_feeder_fluxes =
     [(''H1Y2'', raw ''Y2_fprey1c''), (''H2Y2'', raw ''Y2_fprey2c''),
      (''Q6Y2'', raw ''Y2_fprey3c''), (''Y4Y2'', raw ''Y2_fprey4c''),
      (''Y2G3'', raw ''Y2_fYG3c'')] @
     [(''Y2Q6'', return_flux ''Y2_fYQPc'' ''Q6Y2'' 0.8 0.35 ''H1Y2'' [''H2Y2'', ''Y4Y2''])]"
  by (simp add: deposit_feeder_fluxes_def)

lemma later_targets:
  "fst ` set (suspension_feeder_fluxes @ meiofauna_fluxes) =
     {''P1Y3'', ''P2Y3'', ''P3Y3'', ''R6Y3'', ''H1Y3'', ''Q6Y3'', ''Y3G3'', ''Y3Q6'',
      ''H1Y4'', ''H2Y4'', ''Y4Y4'', ''Q6Y4'', ''Y4G3'', ''Y4Q6''}"
  by (simp add: suspension_feeder_fluxes_def meiofauna_fluxes_def)

text \<open>
  C3. In the flux table of the detailed model the column \<open>Y2Q6\<close> equals, at every
  timestamp, \<open>Y2_fYQPc + 0.8 * Q6Y2 + 0.35 * (H1Y2 + H2Y2 + Y4Y2)\<close>, where \<open>Y2_fYQPc\<close> is the
  variable of the dataset and the other four are the columns of the same table.
\<close>

theorem deposit_feeder_return_flux:
  assumes "flux_table xd = Inr df"
  shows "\<exists>fYQPc Q6Y2 H1Y2 H2Y2 Y4Y2 Y2Q6.
           xvar xd ''Y2_fYQPc'' = Inr fYQPc \<and>
           column df ''Q6Y2'' = Inr Q6Y2 \<and> column df ''H1Y2'' = Inr H1Y2 \<and>
           column df ''H2Y2'' = Inr H2Y2 \<and> column df ''Y4Y2'' = Inr Y4Y2 \<and>
           column df ''Y2Q6'' = Inr Y2Q6 \<and>
           index df = time_values xd \<and> length Y2Q6 = length (index df) \<and>
           (\<forall>i < length (index df).
              Y2Q6 ! i = fYQPc ! i + 0.8 * Q6Y2 ! i + 0.35 * (H1Y2 ! i + H2Y2 ! i + Y4Y2 ! i))"
proof -
  let ?pre = "deposition_fluxes @ bacterial_fluxes @
     [(''H1Y2'', raw ''Y2_fprey1c''), (''H2Y2'', raw ''Y2_fprey2c''),
      (''Q6Y2'', raw ''Y2_fprey3c''), (''Y4Y2'', raw ''Y2_fprey4c''),
      (''Y2G3'', raw ''Y2_fYG3c'')]"
  let ?rhs = "return_flux ''Y2_fYQPc'' ''Q6Y2'' 0.8 0.35 ''H1Y2'' [''H2Y2'', ''Y4Y2'']"
  let ?post = "suspension_feeder_fluxes @ meiofauna_fluxes"
  have prog: "deposition_fluxes @ bacterial_fluxes @ deposit_feeder_fluxes @
              suspension_feeder_fluxes @ meiofauna_fluxes = ?pre @ [(''Y2Q6'', ?rhs)] @ ?post"
    by (simp only: deposit_feeder_split append_assoc)
  from assms obtain df0 where df0: "new_frame xd = Inr df0"
    and run: "run_assignments (?pre @ [(''Y2Q6'', ?rhs)] @ ?post) xd df0 = Inr df"
    unfolding flux_table_def prog by (auto simp only: bind_e_Inr)
  from df0 have idx0: "index df0 = time_values xd"
    by (auto simp: new_frame_def bind_e_Inr)
  from run obtain df1 df2
    where pre: "run_assignments ?pre xd df0 = Inr df1"
      and step: "run_assignments [(''Y2Q6'', ?rhs)] xd df1 = Inr df2"
      and post: "run_assignments ?post xd df2 = Inr df"
    by (auto simp only: run_assignments_append bind_e_Inr)
  from step obtain a
    where a: "?rhs xd df1 = Inr a" and la: "length a = length (index df1)"
      and df2: "df2 = df1\<lparr>columns := AList.update ''Y2Q6'' a (columns df1)\<rparr>"
    by (auto simp: bind_e_Inr set_column_Inr)
  from return_flux_two_prey [OF a] obtain ra qs c0 c1 c2
    where ra: "data_vars xd ''Y2_fYQPc'' = Some ra"
      and qs: "map_of (columns df1) ''Q6Y2'' = Some qs"
      and c0: "map_of (columns df1) ''H1Y2'' = Some c0"
      and c1: "map_of (columns df1) ''H2Y2'' = Some c1"
      and c2: "map_of (columns df1) ''Y4Y2'' = Some c2"
      and elt: "\<forall>i < length a. a ! i = ra ! i + qs ! i * 0.8 + 0.35 * (c0 ! i + c1 ! i + c2 ! i)"
    by blast
  have keep: "map_of (columns df) k = map_of (columns df2) k"
    if "k \<in> {''Q6Y2'', ''H1Y2'', ''H2Y2'', ''Y4Y2'', ''Y2Q6''}" for k
  proof -
    have "k \<notin> fst ` set ?post"
      using that unfolding later_targets by auto
    with run_assignments_frame [OF post] show ?thesis by simp
  qed
  have idx: "index df = time_values xd"
    using run_assignments_index [OF post] run_assignments_index [OF pre] df2 idx0 by simp
  have l: "length a = length (index df)"
    using la run_assignments_index [OF pre] idx idx0 by simp
  have "column df ''Q6Y2'' = Inr qs" "column df ''H1Y2'' = Inr c0"
       "column df ''H2Y2'' = Inr c1" "column df ''Y4Y2'' = Inr c2"
       "column df ''Y2Q6'' = Inr a"
    using qs c0 c1 c2 by (simp_all add: column_Inr keep df2 update_conv')
  moreover have "xvar xd ''Y2_fYQPc'' = Inr ra"
    using ra by (simp add: xvar_Inr)
  moreover have "\<forall>i < length (index df).
      a ! i = ra ! i + 0.8 * qs ! i + 0.35 * (c0 ! i + c1 ! i + c2 ! i)"
    using elt l by (simp add: mult.commute)
  ultimately show ?thesis
    using idx l by blast
qed

lemmas flux_defs = flux_table_def new_frame_def deposition_fluxes_def bacterial_fluxes_def
  deposit_feeder_fluxes_def suspension_feeder_fluxes_def meiofauna_fluxes_def
  raw_def return_flux_def xvar_def column_def set_column_def ew_add_def bind_e_def

theorem deposit_feeder_return_flux_witness:
  "\<exists>df. flux_table
          \<lparr>time_values = [\<lparr>year = 2016, month = 1, day = 1, nanosecond_of_day = 0\<rparr>,
                          \<lparr>year = 2016, month = 1, day = 2, nanosecond_of_day = 0\<rparr>],
           data_vars = (\<lambda>v. if v = ''Y2_fYQPc'' then Some [1, 2]
                              else if v = ''Y2_fprey3c'' then Some [10, 20]
                              else Some [100, 200])\<rparr> = Inr df \<and>
        column df ''Q6Y2'' = Inr [10, 20] \<and> column df ''H1Y2'' = Inr [100, 200] \<and>
        column df ''Y2Q6'' = Inr [114, 228] \<and>
        (\<exists>fYQPc Q6Y2 H1Y2 H2Y2 Y4Y2 Y2Q6.
           column df ''Q6Y2'' = Inr Q6Y2 \<and> column df ''H1Y2'' = Inr H1Y2 \<and>
           column df ''H2Y2'' = Inr H2Y2 \<and> column df ''Y4Y2'' = Inr Y4Y2 \<and>
           column df ''Y2Q6'' = Inr Y2Q6 \<and> length Y2Q6 = length (index df) \<and>
           (\<forall>i < length (index df).
              Y2Q6 ! i = fYQPc ! i + 0.8 * Q6Y2 ! i + 0.35 * (H1Y2 ! i + H2Y2 ! i + Y4Y2 ! i)))"
proof -
  let ?xd = "\<lparr>time_values = [\<lparr>year = 2016, month = 1, day = 1, nanosecond_of_day = 0\<rparr>,
                          \<lparr>year = 2016, month = 1, day = 2, nanosecond_of_day = 0\<rparr>],
           data_vars = (\<lambda>v. if v = ''Y2_fYQPc'' then Some [1, 2]
                              else if v = ''Y2_fprey3c'' then Some [10, 20]
                              else Some [100, 200])\<rparr>"
  have "\<exists>df. flux_table ?xd = Inr df \<and>
        column df ''Q6Y2'' = Inr [10, 20] \<and> column df ''H1Y2'' = Inr [100, 200] \<and>
        column df ''Y2Q6'' = Inr [114, 228]"
    by (simp add: flux_defs)
  then obtain df where ft: "flux_table ?xd = Inr df"
    and cols: "column df ''Q6Y2'' = Inr [10, 20]" "column df ''H1Y2'' = Inr [100, 200]"
      "column df ''Y2Q6'' = Inr [114, 228]"
    by blast
  from deposit_feeder_return_flux [OF ft] ft cols show ?thesis
    by blast
qed

end
